theory Spec2Isabelle
  imports Main "HOL-Library.Sublist"
begin

section \<open>The realtime relay of Server.js\<close>

text \<open>
  The relay is the Socket.IO part of \<^verbatim>\<open>src/Server.js\<close> (lines 146 to 186): the object
  \<^verbatim>\<open>onlineUsers\<close>, the connection handler, and the seven listeners every socket gets
  (\<^verbatim>\<open>disconnect\<close>, \<^verbatim>\<open>sendmessage\<close> and the five signaling events).  Each listener
  is a function from the state of the process to its new state.  The variables a listener
  closes over (\<^verbatim>\<open>userId\<close> and the socket with its \<^verbatim>\<open>id\<close>) are explicit arguments.
\<close>

subsection \<open>Values\<close>

text \<open>
  An identity is what a client sends in \<^verbatim>\<open>query.userId\<close>, \<^verbatim>\<open>sender\<close>, \<^verbatim>\<open>receiver\<close>,
  \<^verbatim>\<open>from\<close> or \<^verbatim>\<open>to\<close>: a string, or nothing at all (\<^verbatim>\<open>undefined\<close>), which is \<open>None\<close>.
  A handle is a \<^verbatim>\<open>socket.id\<close>, a string.  The other payloads (\<^verbatim>\<open>text\<close>, \<^verbatim>\<open>offer\<close>,
  \<^verbatim>\<open>answer\<close>, \<^verbatim>\<open>candidate\<close>) are never inspected by the relay: they are of a type \<open>'p\<close>.
  An inbound event carries an object, as the parameter patterns of the listeners need,
  and a query parameter is given at most once, so \<^verbatim>\<open>userId\<close> is no array.
\<close>

type_synonym ident = "string option"

type_synonym handle = string

text \<open>
  A value read from \<^verbatim>\<open>onlineUsers\<close>: \<^verbatim>\<open>undefined\<close>, a string that was stored there, or a
  member the object inherits from \<^verbatim>\<open>Object.prototype\<close> (named by its property key).
\<close>

datatype jsval = Undefined | Str string | Inherited string

text \<open>The test of \<^verbatim>\<open>if (targetSocket)\<close>: the empty string and \<^verbatim>\<open>undefined\<close> are falsy.\<close>

fun truthy :: "jsval \<Rightarrow> bool" where
  "truthy Undefined = False"
| "truthy (Str s) = (s \<noteq> [])"
| "truthy (Inherited k) = True"

text \<open>A property key is a string: \<^verbatim>\<open>onlineUsers[undefined]\<close> is \<^verbatim>\<open>onlineUsers["undefined"]\<close>.\<close>

definition to_key :: "ident \<Rightarrow> string" where
  "to_key i = (case i of None \<Rightarrow> ''undefined'' | Some s \<Rightarrow> s)"

subsection \<open>The object onlineUsers\<close>

text \<open>
  \<^verbatim>\<open>const onlineUsers = {}\<close> is an ordinary object.  Its own properties are a map from
  keys to handles; behind them stands \<^verbatim>\<open>Object.prototype\<close>, whose members a read finds
  when the object has no own property of that key.
\<close>

type_synonym registry = "string \<rightharpoonup> handle"

definition object_prototype_names :: "string list" where
  "object_prototype_names =
     [''constructor'', ''hasOwnProperty'', ''isPrototypeOf'', ''propertyIsEnumerable'',
      ''toLocaleString'', ''toString'', ''valueOf'', ''__proto__'',
      ''__defineGetter__'', ''__defineSetter__'', ''__lookupGetter__'', ''__lookupSetter__'']"

text \<open>\<^verbatim>\<open>onlineUsers[k]\<close>, read.\<close>

definition get_prop :: "registry \<Rightarrow> string \<Rightarrow> jsval" where
  "get_prop r k =
     (case r k of
        Some h \<Rightarrow> Str h
      | None \<Rightarrow> if k \<in> set object_prototype_names then Inherited k else Undefined)"

text \<open>
  \<^verbatim>\<open>onlineUsers[k] = h\<close> with \<open>h\<close> a string.  The key \<^verbatim>\<open>__proto__\<close> is the accessor of
  \<^verbatim>\<open>Object.prototype\<close>; its setter ignores a value that is neither an object nor null, so
  the assignment stores nothing.  Every other key becomes (or updates) an own property.
\<close>

definition set_prop :: "registry \<Rightarrow> string \<Rightarrow> handle \<Rightarrow> registry" where
  "set_prop r k h = (if k = ''__proto__'' then r else r(k \<mapsto> h))"

text \<open>\<^verbatim>\<open>delete onlineUsers[k]\<close> removes the own property of that key, if there is one.\<close>

definition delete_prop :: "registry \<Rightarrow> string \<Rightarrow> registry" where
  "delete_prop r k = r(k := None)"

subsection \<open>Messages, outbound events and the state of the process\<close>

text \<open>
  A document of the \<^verbatim>\<open>Message\<close> model (\<^verbatim>\<open>messageSchema\<close>, lines 30 to 35); \<open>createdAt\<close>
  defaults to \<^verbatim>\<open>Date.now\<close> when the document is constructed.
\<close>

record 'p message =
  msg_sender :: ident
  msg_receiver :: ident
  msg_text :: 'p
  createdAt :: nat

text \<open>
  What \<^verbatim>\<open>emit(name, {...})\<close> sends: the event's name and the fields of the object
  literal, in the order they are written.
\<close>

datatype 'p field = FIdent ident | FData 'p

record 'p out_event =
  ev_name :: string
  ev_fields :: "(string \<times> 'p field) list"

text \<open>
  The effects of the relay that are visible outside it, in the order they happen: a
  document saved by the store, and a call \<^verbatim>\<open>io.to(room).emit(name, {...})\<close>.
\<close>

datatype 'p effect = Persist "'p message" | Emit jsval "'p out_event"

text \<open>
  \<open>awaiting\<close> holds the \<^verbatim>\<open>sendmessage\<close> listeners suspended at their \<^verbatim>\<open>await\<close>, each
  with the document whose \<^verbatim>\<open>save()\<close> it waits for, oldest first.  \<open>running\<close> says that
  the Node process is alive; once it has ended, no listener runs any more.
\<close>

record 'p relay =
  onlineUsers :: registry
  awaiting :: "'p message list"
  trace :: "'p effect list"
  running :: bool

definition init :: "'p relay" where
  "init = \<lparr>onlineUsers = Map.empty, awaiting = [], trace = [], running = True\<rparr>"

text \<open>
  Socket.IO delivers an emission to the sockets in the room.  A socket is in the room
  named by its own id and the source never joins another, so a room that is not a string
  has no member.
\<close>

fun recipient :: "jsval \<Rightarrow> handle option" where
  "recipient (Str h) = Some h"
| "recipient Undefined = None"
| "recipient (Inherited k) = None"

fun outbound :: "'p effect list \<Rightarrow> (handle \<times> 'p out_event) list" where
  "outbound [] = []"
| "outbound (Persist m # es) = outbound es"
| "outbound (Emit room ev # es) =
     (case recipient room of Some h \<Rightarrow> (h, ev) # outbound es | None \<Rightarrow> outbound es)"

fun persisted :: "'p effect list \<Rightarrow> 'p message list" where
  "persisted [] = []"
| "persisted (Persist m # es) = m # persisted es"
| "persisted (Emit room ev # es) = persisted es"

subsection \<open>The connection lifecycle (lines 149 to 153)\<close>

text \<open>
  \<^verbatim>\<open>io.on("connection", (socket) => { const userId = socket.handshake.query.userId;
  onlineUsers[userId] = socket.id; ... })\<close>
\<close>

definition connection :: "ident \<Rightarrow> handle \<Rightarrow> 'p relay \<Rightarrow> 'p relay" where
  "connection userId socket_id st =
     st\<lparr>onlineUsers := set_prop (onlineUsers st) (to_key userId) socket_id\<rparr>"

text \<open>
  \<^verbatim>\<open>socket.on("disconnect", () => delete onlineUsers[userId])\<close>, for the socket whose
  closure holds \<open>userId\<close> and whose id is \<open>socket_id\<close>; the listener does not read the id.
\<close>

definition disconnect :: "ident \<Rightarrow> handle \<Rightarrow> 'p relay \<Rightarrow> 'p relay" where
  "disconnect userId socket_id st =
     st\<lparr>onlineUsers := delete_prop (onlineUsers st) (to_key userId)\<rparr>"

subsection \<open>Forwarding\<close>

text \<open>\<^verbatim>\<open>io.to(targetSocket).emit(name, {...})\<close>\<close>

definition io_to_emit :: "jsval \<Rightarrow> 'p out_event \<Rightarrow> 'p relay \<Rightarrow> 'p relay" where
  "io_to_emit room ev st = st\<lparr>trace := trace st @ [Emit room ev]\<rparr>"

text \<open>
  The two lines every listener ends with:
  \<^verbatim>\<open>const targetSocket = onlineUsers[to]; if (targetSocket) io.to(targetSocket).emit(...)\<close>
\<close>

definition forward :: "ident \<Rightarrow> 'p out_event \<Rightarrow> 'p relay \<Rightarrow> 'p relay" where
  "forward target ev st =
     (let targetSocket = get_prop (onlineUsers st) (to_key target)
      in if truthy targetSocket then io_to_emit targetSocket ev st else st)"

subsection \<open>The five signaling listeners (lines 161 to 184)\<close>

definition call_user :: "ident \<Rightarrow> ident \<Rightarrow> 'p \<Rightarrow> 'p relay \<Rightarrow> 'p relay" where
  "call_user from to offer st =
     forward to \<lparr>ev_name = ''incoming-call'',
                 ev_fields = [(''from'', FIdent from), (''offer'', FData offer)]\<rparr> st"

definition answer_call :: "ident \<Rightarrow> ident \<Rightarrow> 'p \<Rightarrow> 'p relay \<Rightarrow> 'p relay" where
  "answer_call from to answer st =
     forward to \<lparr>ev_name = ''call-answered'',
                 ev_fields = [(''from'', FIdent from), (''answer'', FData answer)]\<rparr> st"

definition ice_candidate :: "ident \<Rightarrow> ident \<Rightarrow> 'p \<Rightarrow> 'p relay \<Rightarrow> 'p relay" where
  "ice_candidate from to candidate st =
     forward to \<lparr>ev_name = ''ice-candidate'',
                 ev_fields = [(''from'', FIdent from), (''candidate'', FData candidate)]\<rparr> st"

definition reject_call :: "ident \<Rightarrow> ident \<Rightarrow> 'p relay \<Rightarrow> 'p relay" where
  "reject_call from to st =
     forward to \<lparr>ev_name = ''call-rejected'', ev_fields = [(''from'', FIdent from)]\<rparr> st"

definition end_call :: "ident \<Rightarrow> ident \<Rightarrow> 'p relay \<Rightarrow> 'p relay" where
  "end_call from to st =
     forward to \<lparr>ev_name = ''call-ended'', ev_fields = [(''from'', FIdent from)]\<rparr> st"

text \<open>An inbound signaling event, and the listener Socket.IO calls for it.\<close>

datatype 'p signal =
    CallUser ident ident 'p
  | AnswerCall ident ident 'p
  | IceCandidate ident ident 'p
  | RejectCall ident ident
  | EndCall ident ident

fun on_signal :: "'p signal \<Rightarrow> 'p relay \<Rightarrow> 'p relay" where
  "on_signal (CallUser from to offer) st = call_user from to offer st"
| "on_signal (AnswerCall from to answer) st = answer_call from to answer st"
| "on_signal (IceCandidate from to candidate) st = ice_candidate from to candidate st"
| "on_signal (RejectCall from to) st = reject_call from to st"
| "on_signal (EndCall from to) st = end_call from to st"

subsection \<open>Saving a document (lines 30 to 38 and 156)\<close>

text \<open>
  \<^verbatim>\<open>messageSchema\<close> types \<^verbatim>\<open>sender\<close> and \<^verbatim>\<open>receiver\<close> as \<^verbatim>\<open>ObjectId\<close>, neither of them
  required.  \<^verbatim>\<open>save()\<close> validates the document before the store is asked: a path left
  \<^verbatim>\<open>undefined\<close> passes, a string passes when it casts to an ObjectId, that is when it is
  24 hexadecimal digits, and any other string makes \<^verbatim>\<open>save()\<close> reject with a validation
  error.  (Drivers before version 5 of the BSON library also cast any string of 12
  characters; the model follows the current rule.  The text is a string, which the
  \<^verbatim>\<open>String\<close> path takes as it is.)
\<close>

definition hex_digit :: "char \<Rightarrow> bool" where
  "hex_digit c = (c \<in> set ''0123456789abcdefABCDEF'')"

definition casts_to_ObjectId :: "ident \<Rightarrow> bool" where
  "casts_to_ObjectId i =
     (case i of None \<Rightarrow> True | Some s \<Rightarrow> length s = 24 \<and> list_all hex_digit s)"

definition validates :: "'p message \<Rightarrow> bool" where
  "validates m = (casts_to_ObjectId (msg_sender m) \<and> casts_to_ObjectId (msg_receiver m))"

text \<open>
  A document that validates goes to the store, which is not part of the source: it has
  stored the document, or it cannot be reached.
\<close>

datatype store_reply = Stored | Unavailable

datatype save_error = StoreUnavailable | ValidationError

datatype save_result = Saved | Failed save_error

definition save :: "'p message \<Rightarrow> store_reply \<Rightarrow> save_result" where
  "save m reply =
     (if validates m
      then (case reply of Stored \<Rightarrow> Saved | Unavailable \<Rightarrow> Failed StoreUnavailable)
      else Failed ValidationError)"

subsection \<open>The sendmessage listener (lines 155 to 159)\<close>

text \<open>
  \<^verbatim>\<open>async ({ sender, receiver, text }) => { await new Message({ sender, receiver,
  text }).save(); const targetSocket = onlineUsers[receiver]; if (targetSocket)
  io.to(targetSocket).emit("receivemessage", { sender, text }); }\<close>

  The listener runs in two parts.  The first constructs the document, calls \<^verbatim>\<open>save()\<close>
  and suspends at the \<^verbatim>\<open>await\<close>; other listeners may run before the second part.  The
  second part runs when the promise of \<^verbatim>\<open>save()\<close> settles.  The listener has no
  \<^verbatim>\<open>try\<close>/\<^verbatim>\<open>catch\<close>, so a rejected save ends it there, as a rejection of its own promise.
\<close>

datatype completion = Fulfilled | Rejected save_error

definition sendmessage_begin :: "ident \<Rightarrow> ident \<Rightarrow> 'p \<Rightarrow> nat \<Rightarrow> 'p relay \<Rightarrow> 'p relay" where
  "sendmessage_begin sender receiver text now st =
     st\<lparr>awaiting := awaiting st @
          [\<lparr>msg_sender = sender, msg_receiver = receiver, msg_text = text, createdAt = now\<rparr>]\<rparr>"

definition receivemessage :: "'p message \<Rightarrow> 'p out_event" where
  "receivemessage m =
     \<lparr>ev_name = ''receivemessage'',
      ev_fields = [(''sender'', FIdent (msg_sender m)), (''text'', FData (msg_text m))]\<rparr>"

definition sendmessage_resume :: "'p message \<Rightarrow> store_reply \<Rightarrow> 'p relay \<Rightarrow> completion \<times> 'p relay" where
  "sendmessage_resume m reply st =
     (case save m reply of
        Failed e \<Rightarrow> (Rejected e, st)
      | Saved \<Rightarrow>
          (Fulfilled,
           forward (msg_receiver m) (receivemessage m) (st\<lparr>trace := trace st @ [Persist m]\<rparr>)))"

text \<open>
  The \<open>i\<close>-th pending \<^verbatim>\<open>save()\<close> settles and its listener resumes.  There is nothing to
  resume (\<open>None\<close>) when fewer than \<open>i + 1\<close> listeners wait.
\<close>

definition save_settled :: "nat \<Rightarrow> store_reply \<Rightarrow> 'p relay \<Rightarrow> (completion \<times> 'p relay) option" where
  "save_settled i reply st =
     (if i < length (awaiting st)
      then Some (sendmessage_resume (awaiting st ! i) reply
                   (st\<lparr>awaiting := take i (awaiting st) @ drop (Suc i) (awaiting st)\<rparr>))
      else None)"

text \<open>
  The whole listener when nothing runs between its two parts: the save it has just
  started is the newest pending one, and it settles at once.
\<close>

definition sendmessage ::
  "ident \<Rightarrow> ident \<Rightarrow> 'p \<Rightarrow> nat \<Rightarrow> store_reply \<Rightarrow> 'p relay \<Rightarrow> (completion \<times> 'p relay) option" where
  "sendmessage sender receiver text now reply st =
     save_settled (length (awaiting st)) reply (sendmessage_begin sender receiver text now st)"

subsection \<open>Runs of the process\<close>

text \<open>
  What can happen to the process, one event at a time: a client connects or disconnects,
  a socket receives one of its six inbound events, or a pending \<^verbatim>\<open>save()\<close> settles.
  Node runs each listener (and each part of the asynchronous one) to its end before the
  next, so a run is a list of events.
\<close>

datatype 'p event =
    Connection ident handle
  | Disconnect ident handle
  | SendMessage ident ident 'p nat
  | SaveSettled nat store_reply
  | Signal "'p signal"

text \<open>
  The listener an event calls.  When the \<^verbatim>\<open>sendmessage\<close> listener ends rejected, nothing
  handles the rejection: the source calls the listener through Socket.IO, which drops the
  promise, and installs no \<^verbatim>\<open>unhandledRejection\<close> handler, so Node, by its default, ends
  the process.
\<close>

fun dispatch :: "'p event \<Rightarrow> 'p relay \<Rightarrow> 'p relay" where
  "dispatch (Connection userId socket_id) st = connection userId socket_id st"
| "dispatch (Disconnect userId socket_id) st = disconnect userId socket_id st"
| "dispatch (SendMessage sender receiver text now) st =
     sendmessage_begin sender receiver text now st"
| "dispatch (SaveSettled i reply) st =
     (case save_settled i reply st of
        None \<Rightarrow> st
      | Some (Fulfilled, st') \<Rightarrow> st'
      | Some (Rejected e, st') \<Rightarrow> st'\<lparr>running := False\<rparr>)"
| "dispatch (Signal s) st = on_signal s st"

text \<open>A process that has ended serves no event.\<close>

definition step :: "'p event \<Rightarrow> 'p relay \<Rightarrow> 'p relay" where
  "step e st = (if running st then dispatch e st else st)"

fun run :: "'p event list \<Rightarrow> 'p relay \<Rightarrow> 'p relay" where
  "run [] st = st"
| "run (e # es) st = run es (step e st)"

text \<open>The documents the \<^verbatim>\<open>sendmessage\<close> events of a run construct, in the order of the events.\<close>

fun invoked :: "'p event list \<Rightarrow> 'p message list" where
  "invoked [] = []"
| "invoked (SendMessage sender receiver text now # es) =
     \<lparr>msg_sender = sender, msg_receiver = receiver, msg_text = text, createdAt = now\<rparr> # invoked es"
| "invoked (e # es) = invoked es"

text \<open>The \<^verbatim>\<open>receivemessage\<close> events that reached a connection, in the order they were sent.\<close>

definition forwarded :: "'p effect list \<Rightarrow> 'p out_event list" where
  "forwarded tr = filter (\<lambda>ev. ev_name ev = ''receivemessage'') (map snd (outbound tr))"

definition sent_by :: "ident \<Rightarrow> 'p message \<Rightarrow> bool" where
  "sent_by s m = (msg_sender m = s)"

definition from_sender :: "ident \<Rightarrow> 'p out_event \<Rightarrow> bool" where
  "from_sender s ev = (map_of (ev_fields ev) ''sender'' = Some (FIdent s))"

text \<open>Every pending save of the run settles oldest first.\<close>

fun fifo :: "'p event list \<Rightarrow> bool" where
  "fifo [] = True"
| "fifo (SaveSettled i reply # es) = (i = 0 \<and> fifo es)"
| "fifo (e # es) = fifo es"

subsection \<open>The table of signaling events, as the specification gives it\<close>

text \<open>
  These two functions follow the specification's table (section 4.4 and section 6), not
  the code: the identity an inbound event names as its target, and the outbound event it
  is to be forwarded as, with the fields the table lists.  The listeners above are
  compared with them.
\<close>

fun target :: "'p signal \<Rightarrow> ident" where
  "target (CallUser from to offer) = to"
| "target (AnswerCall from to answer) = to"
| "target (IceCandidate from to candidate) = to"
| "target (RejectCall from to) = to"
| "target (EndCall from to) = to"

fun spec_outbound :: "'p signal \<Rightarrow> 'p out_event" where
  "spec_outbound (CallUser from to offer) =
     \<lparr>ev_name = ''incoming-call'', ev_fields = [(''from'', FIdent from), (''offer'', FData offer)]\<rparr>"
| "spec_outbound (AnswerCall from to answer) =
     \<lparr>ev_name = ''call-answered'', ev_fields = [(''from'', FIdent from), (''answer'', FData answer)]\<rparr>"
| "spec_outbound (IceCandidate from to candidate) =
     \<lparr>ev_name = ''ice-candidate'',
      ev_fields = [(''from'', FIdent from), (''candidate'', FData candidate)]\<rparr>"
| "spec_outbound (RejectCall from to) =
     \<lparr>ev_name = ''call-rejected'', ev_fields = [(''from'', FIdent from)]\<rparr>"
| "spec_outbound (EndCall from to) =
     \<lparr>ev_name = ''call-ended'', ev_fields = [(''from'', FIdent from)]\<rparr>"

text \<open>The events of the connection lifecycle.\<close>

fun lifecycle :: "'p event \<Rightarrow> bool" where
  "lifecycle (Connection userId socket_id) = True"
| "lifecycle (Disconnect userId socket_id) = True"
| "lifecycle e = False"

subsection \<open>Concrete runs\<close>

text \<open>
  The scenario of the specification's section 8: A connects as \<open>u1\<close> on the socket \<open>hA\<close>,
  then B connects as \<open>u2\<close> on the socket \<open>hB\<close>.
\<close>

definition alice_bob :: "string relay" where
  "alice_bob = connection (Some ''u2'') ''hB'' (connection (Some ''u1'') ''hA'' init)"

text \<open>A reconnects as \<open>u1\<close> on a new socket \<open>hA2\<close> before the old socket \<open>hA\<close> has closed.\<close>

definition reconnected :: "string relay" where
  "reconnected = connection (Some ''u1'') ''hA2'' (connection (Some ''u1'') ''hA'' init)"

text \<open>
  Two users as \<^verbatim>\<open>/login\<close> names them, by the \<^verbatim>\<open>_id\<close> of their documents, and the state
  in which both are connected, A on the socket \<open>hA\<close> and B on the socket \<open>hB\<close>.
\<close>

definition idA :: string where
  "idA = ''64b7f3a2c9e1d4f5a6b7c8d9''"

definition idB :: string where
  "idB = ''64b7f3a2c9e1d4f5a6b7c8da''"

definition online :: "string relay" where
  "online = connection (Some idB) ''hB'' (connection (Some idA) ''hA'' init)"

text \<open>The documents of three messages from A to B and of a memo from A to A.\<close>

definition hi :: "string message" where
  "hi = \<lparr>msg_sender = Some idA, msg_receiver = Some idB, msg_text = ''hi'', createdAt = 0\<rparr>"

definition one :: "string message" where
  "one = \<lparr>msg_sender = Some idA, msg_receiver = Some idB, msg_text = ''one'', createdAt = 0\<rparr>"

definition two :: "string message" where
  "two = \<lparr>msg_sender = Some idA, msg_receiver = Some idB, msg_text = ''two'', createdAt = 1\<rparr>"

definition memo :: "string message" where
  "memo = \<lparr>msg_sender = Some idA, msg_receiver = Some idA, msg_text = ''memo'', createdAt = 7\<rparr>"

text \<open>
  A sends \<open>one\<close> and then \<open>two\<close> to B, who is connected, and the store takes both.  In
  \<open>in_order\<close> the two saves settle oldest first; in \<open>reordered\<close> the second save settles
  before the first.
\<close>

definition in_order :: "string event list" where
  "in_order =
     [Connection (Some idB) ''hB'',
      SendMessage (Some idA) (Some idB) ''one'' 0,
      SendMessage (Some idA) (Some idB) ''two'' 1,
      SaveSettled 0 Stored, SaveSettled 0 Stored]"

definition reordered :: "string event list" where
  "reordered =
     [Connection (Some idB) ''hB'',
      SendMessage (Some idA) (Some idB) ''one'' 0,
      SendMessage (Some idA) (Some idB) ''two'' 1,
      SaveSettled 1 Stored, SaveSettled 0 Stored]"

text \<open>
  A sends \<open>hi\<close> to B while the store cannot be reached; afterwards A calls B.  And A sends
  a memo to A, but the socket of A closes before the save settles.
\<close>

definition store_down :: "string event list" where
  "store_down =
     [SendMessage (Some idA) (Some idB) ''hi'' 0,
      SaveSettled 0 Unavailable,
      Signal (CallUser (Some idA) (Some idB) ''O'')]"

definition gone_before_saved :: "string event list" where
  "gone_before_saved =
     [SendMessage (Some idA) (Some idA) ''memo'' 7,
      Disconnect (Some idA) ''hA'',
      SaveSettled 0 Stored]"

section \<open>Properties\<close>

subsection \<open>Effects of forwarding\<close>

lemma outbound_append: "outbound (xs @ ys) = outbound xs @ outbound ys"
  by (induction xs rule: outbound.induct) (simp_all split: option.splits)

lemma persisted_append: "persisted (xs @ ys) = persisted xs @ persisted ys"
  by (induction xs rule: persisted.induct) simp_all

lemma forwarded_append: "forwarded (xs @ ys) = forwarded xs @ forwarded ys"
  by (simp add: forwarded_def outbound_append)

lemma onlineUsers_forward: "onlineUsers (forward t ev st) = onlineUsers st"
  by (simp add: forward_def io_to_emit_def Let_def)

lemma awaiting_forward: "awaiting (forward t ev st) = awaiting st"
  by (simp add: forward_def io_to_emit_def Let_def)

lemma running_forward: "running (forward t ev st) = running st"
  by (simp add: forward_def io_to_emit_def Let_def)

lemma trace_forward:
  "trace (forward t ev st) =
     trace st @ (if truthy (get_prop (onlineUsers st) (to_key t))
                 then [Emit (get_prop (onlineUsers st) (to_key t)) ev] else [])"
  by (simp add: forward_def io_to_emit_def Let_def)

lemma persisted_forward: "persisted (trace (forward t ev st)) = persisted (trace st)"
  by (simp add: trace_forward persisted_append)

lemma forward_hit:
  "onlineUsers st (to_key t) = Some h \<Longrightarrow> h \<noteq> [] \<Longrightarrow>
     forward t ev st = st\<lparr>trace := trace st @ [Emit (Str h) ev]\<rparr>"
  by (simp add: forward_def io_to_emit_def get_prop_def)

lemma forward_miss_outbound:
  "onlineUsers st (to_key t) = None \<Longrightarrow> outbound (trace (forward t ev st)) = outbound (trace st)"
  by (simp add: trace_forward get_prop_def outbound_append)

lemma forward_miss:
  "onlineUsers st (to_key t) = None \<Longrightarrow> to_key t \<notin> set object_prototype_names \<Longrightarrow>
     forward t ev st = st"
  by (simp add: forward_def get_prop_def)

text \<open>
  Each of the five listeners is the common forwarding step, applied to the target and the
  outbound event the specification's table gives for its inbound event.
\<close>

lemma on_signal_forward: "on_signal s st = forward (target s) (spec_outbound s) st"
  by (cases s)
     (simp_all add: call_user_def answer_call_def ice_candidate_def reject_call_def end_call_def)

subsection \<open>Effects of the sendmessage listener\<close>

lemma save_Saved: "(save m reply = Saved) = (validates m \<and> reply = Stored)"
  by (simp add: save_def split: store_reply.splits)

lemma resume_saved:
  "save m reply = Saved \<Longrightarrow>
     sendmessage_resume m reply st =
       (Fulfilled, forward (msg_receiver m) (receivemessage m) (st\<lparr>trace := trace st @ [Persist m]\<rparr>))"
  by (simp add: sendmessage_resume_def)

lemma resume_failed:
  "save m reply = Failed e \<Longrightarrow> sendmessage_resume m reply st = (Rejected e, st)"
  by (simp add: sendmessage_resume_def)

lemma sendmessage_whole:
  "sendmessage sender receiver text now reply st =
     Some (sendmessage_resume
        \<lparr>msg_sender = sender, msg_receiver = receiver, msg_text = text, createdAt = now\<rparr> reply st)"
  by (simp add: sendmessage_def save_settled_def sendmessage_begin_def)

lemma step_sendmessage:
  "running st \<Longrightarrow>
     step (SendMessage sender receiver body now) st =
       st\<lparr>awaiting := awaiting st @
            [\<lparr>msg_sender = sender, msg_receiver = receiver, msg_text = body, createdAt = now\<rparr>]\<rparr>"
  by (simp add: step_def sendmessage_begin_def)

lemma settle_pending:
  "i < length (awaiting st) \<Longrightarrow>
     save_settled i reply st =
       Some (sendmessage_resume (awaiting st ! i) reply
               (st\<lparr>awaiting := take i (awaiting st) @ drop (Suc i) (awaiting st)\<rparr>))"
  by (simp add: save_settled_def)

lemma trace_resume:
  "trace (snd (sendmessage_resume m reply st)) =
     trace st @
       (if save m reply = Saved
        then Persist m #
             (if truthy (get_prop (onlineUsers st) (to_key (msg_receiver m)))
              then [Emit (get_prop (onlineUsers st) (to_key (msg_receiver m))) (receivemessage m)]
              else [])
        else [])"
  by (cases "save m reply") (simp_all add: sendmessage_resume_def trace_forward)

lemma awaiting_resume: "awaiting (snd (sendmessage_resume m reply st)) = awaiting st"
  by (cases "save m reply") (simp_all add: sendmessage_resume_def awaiting_forward)

lemma onlineUsers_resume: "onlineUsers (snd (sendmessage_resume m reply st)) = onlineUsers st"
  by (cases "save m reply") (simp_all add: sendmessage_resume_def onlineUsers_forward)

lemma onlineUsers_dispatch: "\<not> lifecycle e \<Longrightarrow> onlineUsers (dispatch e st) = onlineUsers st"
proof (cases e)
  case (SaveSettled i reply)
  show ?thesis
  proof (cases "i < length (awaiting st)")
    case False
    then show ?thesis using SaveSettled by (simp add: save_settled_def)
  next
    case True
    define m where "m = awaiting st ! i"
    define st1 where "st1 = st\<lparr>awaiting := take i (awaiting st) @ drop (Suc i) (awaiting st)\<rparr>"
    have s: "save_settled i reply st = Some (sendmessage_resume m reply st1)"
      using True by (simp add: save_settled_def m_def st1_def)
    have "onlineUsers (snd (sendmessage_resume m reply st1)) = onlineUsers st"
      by (simp add: onlineUsers_resume st1_def)
    then show ?thesis using SaveSettled s
      by (cases "sendmessage_resume m reply st1"; cases "fst (sendmessage_resume m reply st1)") auto
  qed
qed (simp_all add: sendmessage_begin_def on_signal_forward onlineUsers_forward)

lemma onlineUsers_step: "\<not> lifecycle e \<Longrightarrow> onlineUsers (step e st) = onlineUsers st"
  by (simp add: step_def onlineUsers_dispatch)

lemma run_ended: "\<not> running st \<Longrightarrow> run es st = st"
  by (induction es) (simp_all add: step_def)

subsection \<open>The concrete states\<close>

lemma alice_bob_registry:
  "onlineUsers alice_bob ''u1'' = Some ''hA''" "onlineUsers alice_bob ''u2'' = Some ''hB''"
  "trace alice_bob = []" "awaiting alice_bob = []" "running alice_bob"
  by (simp_all add: alice_bob_def connection_def set_prop_def to_key_def init_def)

lemma ids:
  "casts_to_ObjectId (Some idA)" "casts_to_ObjectId (Some idB)"
  "idA \<noteq> idB" "idB \<noteq> idA" "idA \<noteq> ''__proto__''" "idB \<noteq> ''__proto__''"
  "idA \<notin> set object_prototype_names" "idB \<notin> set object_prototype_names"
  by (simp_all add: casts_to_ObjectId_def hex_digit_def idA_def idB_def object_prototype_names_def)

lemma online_registry:
  "onlineUsers online idA = Some ''hA''" "onlineUsers online idB = Some ''hB''"
  "trace online = []" "awaiting online = []" "running online"
  by (simp_all add: online_def connection_def set_prop_def to_key_def init_def ids)

lemma validates_documents: "validates hi" "validates one" "validates two" "validates memo"
  by (simp_all add: validates_def hi_def one_def two_def memo_def ids)

subsection \<open>The registry\<close>

text \<open>
  C1, as the claim has it, fails: A is connected as \<open>u1\<close> on \<open>hA\<close> and again on \<open>hA2\<close>,
  so the registry stores \<open>hA2\<close>; when the old socket \<open>hA\<close> then disconnects, a lookup of
  \<open>u1\<close> no longer returns \<open>hA2\<close>.
\<close>

theorem stale_disconnect_evicts_live_entry:
  "get_prop (onlineUsers reconnected) ''u1'' = Str ''hA2'' \<and>
   get_prop (onlineUsers (disconnect (Some ''u1'') ''hA'' reconnected)) ''u1'' = Undefined"
  by (simp add: reconnected_def disconnect_def connection_def init_def set_prop_def
      delete_prop_def get_prop_def to_key_def object_prototype_names_def)

text \<open>
  C1 (amended): the disconnect listener removes the entry of its identity whatever handle
  is stored there.  For every identity \<open>X\<close>, every state and every handle \<open>h1\<close> of the
  closing socket, after \<^verbatim>\<open>unregister(X, h1)\<close> the registry has no entry for \<open>X\<close>; a lookup
  of \<open>X\<close> returns no handle \<open>h2\<close>, also when \<open>h2\<close>, different from \<open>h1\<close>, was stored.
\<close>

theorem disconnect_removes_entry_unconditionally:
  "onlineUsers (disconnect X h1 st) (to_key X) = None \<and>
   get_prop (onlineUsers (disconnect X h1 st)) (to_key X) \<noteq> Str h2"
  by (simp add: disconnect_def delete_prop_def get_prop_def)

theorem disconnect_removes_entry_unconditionally_witness:
  "onlineUsers (disconnect (Some ''u1'') ''hA'' reconnected) ''u1'' = None \<and>
   get_prop (onlineUsers (disconnect (Some ''u1'') ''hA'' reconnected)) ''u1'' \<noteq> Str ''hA2''"
  using disconnect_removes_entry_unconditionally
    [where X = "Some ''u1''" and ?h1.0 = "''hA''" and st = reconnected and ?h2.0 = "''hA2''"]
  by (simp add: to_key_def)

text \<open>
  Last writer wins for every key but one: after \<^verbatim>\<open>register(X, h1)\<close> and then
  \<^verbatim>\<open>register(X, h2)\<close> a lookup of \<open>X\<close> returns \<open>h2\<close>, and the registry, a map, holds one
  entry for \<open>X\<close>.
\<close>

lemma last_writer_wins:
  "to_key X \<noteq> ''__proto__'' \<Longrightarrow>
     get_prop (onlineUsers (connection X h2 (connection X h1 st))) (to_key X) = Str h2 \<and>
     onlineUsers (connection X h2 (connection X h1 st)) (to_key X) = Some h2"
  by (simp add: connection_def set_prop_def get_prop_def)

text \<open>
  C4 fails at the identity \<^verbatim>\<open>__proto__\<close>: the two assignments
  \<^verbatim>\<open>onlineUsers["__proto__"] = socket.id\<close> store nothing, the registry stays empty, and
  a lookup of that identity returns the inherited \<^verbatim>\<open>Object.prototype\<close>, not the handle
  \<open>h2\<close> registered last.
\<close>

theorem proto_identity_is_not_registered:
  "onlineUsers (connection (Some ''__proto__'') ''h2''
       (connection (Some ''__proto__'') ''h1'' (init :: string relay))) = Map.empty \<and>
   get_prop (onlineUsers (connection (Some ''__proto__'') ''h2''
       (connection (Some ''__proto__'') ''h1'' (init :: string relay)))) ''__proto__''
     = Inherited ''__proto__''"
  by (simp add: connection_def init_def set_prop_def get_prop_def to_key_def
      object_prototype_names_def)

text \<open>
  C6, as the claim has it, fails: a connection that supplies no identity is registered,
  under the key \<^verbatim>\<open>undefined\<close>, and a lookup of that key returns its handle.
\<close>

theorem absent_identity_is_registered:
  "get_prop (onlineUsers (connection None ''hA'' (init :: string relay))) ''undefined'' = Str ''hA''"
  by (simp add: connection_def init_def set_prop_def get_prop_def to_key_def)

text \<open>
  C6 (amended): a connection that supplies an absent or an empty identity is accepted and
  registered like any other, under the key \<^verbatim>\<open>undefined\<close> or the empty key: a lookup of
  that key returns its handle, and a lookup of any other identity \<open>Y\<close> returns what it
  returned before the connection.
\<close>

theorem absent_or_empty_identity_registered_under_its_key:
  "userId = None \<or> userId = Some [] \<Longrightarrow>
     get_prop (onlineUsers (connection userId h st)) (to_key userId) = Str h \<and>
     (\<forall>Y. Y \<noteq> to_key userId \<longrightarrow>
        get_prop (onlineUsers (connection userId h st)) Y = get_prop (onlineUsers st) Y)"
  by (auto simp add: connection_def set_prop_def get_prop_def to_key_def)

theorem absent_or_empty_identity_registered_under_its_key_witness:
  "get_prop (onlineUsers (connection (Some []) ''hC'' alice_bob)) [] = Str ''hC'' \<and>
   get_prop (onlineUsers (connection (Some []) ''hC'' alice_bob)) ''u2'' = Str ''hB''"
proof -
  have "Some [] = (None :: ident) \<or> Some [] = (Some [] :: ident)" by simp
  from absent_or_empty_identity_registered_under_its_key
         [where userId = "Some []" and h = "''hC''" and st = alice_bob, OF this]
  show ?thesis by (simp add: to_key_def get_prop_def alice_bob_registry)
qed

subsection \<open>The message relay\<close>

text \<open>
  C2, as the claim has it, fails: the claim is for all senders and receivers, but a
  document whose sender or receiver is no ObjectId does not validate.  \<open>u1\<close> sends \<open>hi\<close>
  to \<open>u2\<close> while the store is ready to take it: the save is rejected and nothing is
  persisted.
\<close>

theorem plain_names_are_not_persisted:
  "sendmessage (Some ''u1'') (Some ''u2'') ''hi'' 0 Stored alice_bob =
     Some (Rejected ValidationError, alice_bob) \<and>
   persisted (trace (run [SendMessage (Some ''u1'') (Some ''u2'') ''hi'' 0, SaveSettled 0 Stored]
                      alice_bob)) = []"
  by (simp add: sendmessage_whole sendmessage_resume_def save_def validates_def
      casts_to_ObjectId_def step_def sendmessage_begin_def save_settled_def alice_bob_registry)

text \<open>
  C2 (amended): for all sender, receiver and text, a \<^verbatim>\<open>sendmessage\<close> event starts exactly
  one save, of the document \<open>m\<close> made of the three, and has emitted nothing when it does.
  When that save settles, in whatever state the process then is (so whatever the registry
  holds, also no entry for the receiver), it settles once, and if it has succeeded the
  document is persisted exactly once and before the forwarding attempt: the effects are
  the persisted document followed by at most one emission.  If it has not succeeded
  nothing is persisted and nothing is emitted.  The save succeeds exactly when sender and
  receiver cast to ObjectId and the store takes the document.  The same holds of the
  whole listener when nothing runs between its two parts.
\<close>

theorem sendmessage_saves_once_before_forwarding:
  assumes m: "m = \<lparr>msg_sender = sender, msg_receiver = receiver, msg_text = body, createdAt = now\<rparr>"
  shows
  "(running st \<longrightarrow>
      step (SendMessage sender receiver body now) st = st\<lparr>awaiting := awaiting st @ [m]\<rparr>) \<and>
   (i < length (awaiting st2) \<and> awaiting st2 ! i = m \<longrightarrow>
      (\<exists>c st3 fw. save_settled i reply st2 = Some (c, st3) \<and>
          awaiting st3 = take i (awaiting st2) @ drop (Suc i) (awaiting st2) \<and>
          trace st3 = trace st2 @ (if save m reply = Saved then Persist m # fw else []) \<and>
          persisted fw = [] \<and> length fw \<le> 1)) \<and>
   (\<exists>c st' fw. sendmessage sender receiver body now reply st = Some (c, st') \<and>
          awaiting st' = awaiting st \<and>
          trace st' = trace st @ (if save m reply = Saved then Persist m # fw else []) \<and>
          persisted fw = [] \<and> length fw \<le> 1) \<and>
   (save m reply = Saved) = (validates m \<and> reply = Stored)"
proof -
  have fw: "\<exists>fw. trace (snd (sendmessage_resume m reply s)) =
                   trace s @ (if save m reply = Saved then Persist m # fw else []) \<and>
                 persisted fw = [] \<and> length fw \<le> 1" for s :: "'a relay"
    by (rule exI [of _ "if truthy (get_prop (onlineUsers s) (to_key (msg_receiver m)))
                        then [Emit (get_prop (onlineUsers s) (to_key (msg_receiver m))) (receivemessage m)]
                        else []"])
       (simp add: trace_resume)
  have a: "running st \<longrightarrow>
      step (SendMessage sender receiver body now) st = st\<lparr>awaiting := awaiting st @ [m]\<rparr>"
    by (simp add: step_sendmessage m)
  have b: "\<exists>c st3 fw. save_settled i reply st2 = Some (c, st3) \<and>
          awaiting st3 = take i (awaiting st2) @ drop (Suc i) (awaiting st2) \<and>
          trace st3 = trace st2 @ (if save m reply = Saved then Persist m # fw else []) \<and>
          persisted fw = [] \<and> length fw \<le> 1"
    if i: "i < length (awaiting st2)" and p: "awaiting st2 ! i = m"
  proof -
    define s where "s = st2\<lparr>awaiting := take i (awaiting st2) @ drop (Suc i) (awaiting st2)\<rparr>"
    from fw [of s] obtain fw where
      "trace (snd (sendmessage_resume m reply s)) =
         trace s @ (if save m reply = Saved then Persist m # fw else [])"
      "persisted fw = []" "length fw \<le> 1"
      by blast
    moreover have "save_settled i reply st2 =
        Some (fst (sendmessage_resume m reply s), snd (sendmessage_resume m reply s))"
      using i p by (simp add: settle_pending s_def)
    moreover have "awaiting (snd (sendmessage_resume m reply s)) =
        take i (awaiting st2) @ drop (Suc i) (awaiting st2)"
      by (simp add: awaiting_resume s_def)
    moreover have "trace s = trace st2" by (simp add: s_def)
    ultimately show ?thesis by metis
  qed
  have c: "\<exists>c st' fw. sendmessage sender receiver body now reply st = Some (c, st') \<and>
          awaiting st' = awaiting st \<and>
          trace st' = trace st @ (if save m reply = Saved then Persist m # fw else []) \<and>
          persisted fw = [] \<and> length fw \<le> 1"
  proof -
    from fw [of st] obtain fw where
      "trace (snd (sendmessage_resume m reply st)) =
         trace st @ (if save m reply = Saved then Persist m # fw else [])"
      "persisted fw = []" "length fw \<le> 1"
      by blast
    moreover have "sendmessage sender receiver body now reply st =
        Some (fst (sendmessage_resume m reply st), snd (sendmessage_resume m reply st))"
      by (simp add: sendmessage_whole m)
    moreover have "awaiting (snd (sendmessage_resume m reply st)) = awaiting st"
      by (simp add: awaiting_resume)
    ultimately show ?thesis by metis
  qed
  from a b c show ?thesis by (simp add: save_Saved)
qed

lemma hi_sent:
  "sendmessage (Some idA) (Some idB) ''hi'' 0 Stored online =
     Some (Fulfilled, online\<lparr>trace := [Persist hi, Emit (Str ''hB'') (receivemessage hi)]\<rparr>)"
proof -
  have "save hi Stored = Saved" by (simp add: save_Saved validates_documents)
  moreover have "onlineUsers (online\<lparr>trace := trace online @ [Persist hi]\<rparr>)
      (to_key (msg_receiver hi)) = Some ''hB''"
    by (simp add: hi_def to_key_def online_registry)
  ultimately show ?thesis
    using sendmessage_whole [of "Some idA" "Some idB" "''hi''" 0 Stored online]
    by (simp add: resume_saved forward_hit online_registry flip: hi_def)
qed

lemma hi_unreachable:
  "sendmessage (Some idA) (Some idB) ''hi'' 0 Stored init =
     Some (Fulfilled, init\<lparr>trace := [Persist hi]\<rparr>)"
proof -
  have "save hi Stored = Saved" by (simp add: save_Saved validates_documents)
  moreover have "onlineUsers ((init :: string relay)\<lparr>trace := trace init @ [Persist hi]\<rparr>)
      (to_key (msg_receiver hi)) = None"
    by (simp add: init_def)
  moreover have "to_key (msg_receiver hi) \<notin> set object_prototype_names"
    by (simp add: hi_def to_key_def ids)
  ultimately show ?thesis
    using sendmessage_whole [of "Some idA" "Some idB" "''hi''" 0 Stored "init :: string relay"]
    by (simp add: resume_saved forward_miss init_def flip: hi_def)
qed

text \<open>
  A sends \<open>hi\<close> to B, both connected: the document is persisted and then forwarded to
  the socket of B.  When B is not connected, the document is persisted all the same.
\<close>

theorem sendmessage_saves_once_before_forwarding_witness:
  "hi = \<lparr>msg_sender = Some idA, msg_receiver = Some idB, msg_text = ''hi'', createdAt = 0\<rparr> \<and>
   running online \<and>
   step (SendMessage (Some idA) (Some idB) ''hi'' 0) online = online\<lparr>awaiting := [hi]\<rparr> \<and>
   save hi Stored = Saved \<and>
   (\<exists>c st3 fw. save_settled 0 Stored (online\<lparr>awaiting := [hi]\<rparr>) = Some (c, st3) \<and>
       awaiting st3 = [] \<and> trace st3 = Persist hi # fw \<and> persisted fw = [] \<and> length fw \<le> 1) \<and>
   (\<exists>c st' fw. sendmessage (Some idA) (Some idB) ''hi'' 0 Stored online = Some (c, st') \<and>
       trace st' = Persist hi # fw \<and> persisted fw = [] \<and> length fw \<le> 1) \<and>
   sendmessage (Some idA) (Some idB) ''hi'' 0 Stored online =
     Some (Fulfilled, online\<lparr>trace := [Persist hi, Emit (Str ''hB'') (receivemessage hi)]\<rparr>) \<and>
   sendmessage (Some idA) (Some idB) ''hi'' 0 Stored init =
     Some (Fulfilled, init\<lparr>trace := [Persist hi]\<rparr>)"
proof -
  have m: "hi = \<lparr>msg_sender = Some idA, msg_receiver = Some idB, msg_text = ''hi'', createdAt = 0\<rparr>"
    by (simp add: hi_def)
  have r: "running online" by (simp add: online_registry)
  have v: "validates hi" by (simp add: validates_documents)
  note t = sendmessage_saves_once_before_forwarding [OF m, where st = online and reply = Stored]
  from t r have a: "step (SendMessage (Some idA) (Some idB) ''hi'' 0) online = online\<lparr>awaiting := [hi]\<rparr>"
    by (simp add: online_registry)
  from t v have s: "save hi Stored = Saved" by simp
  from t [where ?st2.0 = "online\<lparr>awaiting := [hi]\<rparr>" and i = 0,
          THEN conjunct2, THEN conjunct1] s
  have b: "\<exists>c st3 fw. save_settled 0 Stored (online\<lparr>awaiting := [hi]\<rparr>) = Some (c, st3) \<and>
       awaiting st3 = [] \<and> trace st3 = Persist hi # fw \<and> persisted fw = [] \<and> length fw \<le> 1"
    by (auto simp add: online_registry)
  from t [THEN conjunct2, THEN conjunct2, THEN conjunct1] s
  have c: "\<exists>c st' fw. sendmessage (Some idA) (Some idB) ''hi'' 0 Stored online = Some (c, st') \<and>
       trace st' = Persist hi # fw \<and> persisted fw = [] \<and> length fw \<le> 1"
    by (auto simp add: online_registry)
  from m r a s b c hi_sent hi_unreachable show ?thesis by blast
qed

text \<open>
  C5, as the claim has it, fails: A sends \<open>hi\<close> to B while the store cannot be reached,
  and afterwards A calls B.  The process has ended, nothing was emitted to report the
  failure, and the call, which the relay delivers to the socket of B when no save has
  failed, is not delivered: the other connections are affected.
\<close>

theorem failed_save_ends_the_process:
  "\<not> running (run store_down online) \<and>
   trace (run store_down online) = [] \<and>
   outbound (trace (run [Signal (CallUser (Some idA) (Some idB) ''O'')] online)) =
     [(''hB'', \<lparr>ev_name = ''incoming-call'',
               ev_fields = [(''from'', FIdent (Some idA)), (''offer'', FData ''O'')]\<rparr>)]"
proof -
  have f: "save \<lparr>msg_sender = Some idA, msg_receiver = Some idB, msg_text = ''hi'', createdAt = 0\<rparr>
             Unavailable = Failed StoreUnavailable"
    by (simp add: save_def validates_def ids)
  have "run store_down online = online\<lparr>running := False\<rparr>"
    by (simp add: store_down_def step_def sendmessage_begin_def save_settled_def
        resume_failed [OF f] online_registry)
  moreover have "onlineUsers online (to_key (Some idB)) = Some ''hB''"
    by (simp add: to_key_def online_registry)
  ultimately show ?thesis
    by (simp add: online_registry step_def call_user_def forward_hit)
qed

text \<open>
  C5 (amended): if the save fails during a \<^verbatim>\<open>sendmessage\<close> event (the document does not
  validate, or the store cannot be reached), the message is not forwarded and nothing is
  emitted, to the sender or to anyone.  The listener does not catch the failure: it ends
  rejected, nothing handles the rejection, and the process ends, so no later event of any
  connection is served.
\<close>

theorem failed_save_is_unhandled:
  assumes f: "save m reply = Failed e"
  shows
  "sendmessage_resume m reply st = (Rejected e, st) \<and>
   (m = \<lparr>msg_sender = sender, msg_receiver = receiver, msg_text = body, createdAt = now\<rparr> \<longrightarrow>
      sendmessage sender receiver body now reply st = Some (Rejected e, st)) \<and>
   (running st \<and> i < length (awaiting st) \<and> awaiting st ! i = m \<longrightarrow>
      trace (step (SaveSettled i reply) st) = trace st \<and>
      onlineUsers (step (SaveSettled i reply) st) = onlineUsers st \<and>
      \<not> running (step (SaveSettled i reply) st) \<and>
      (\<forall>es. run es (step (SaveSettled i reply) st) = step (SaveSettled i reply) st))"
proof -
  have a: "sendmessage_resume m reply s = (Rejected e, s)" for s :: "'a relay"
    using f by (rule resume_failed)
  have c: "trace (step (SaveSettled i reply) st) = trace st \<and>
      onlineUsers (step (SaveSettled i reply) st) = onlineUsers st \<and>
      \<not> running (step (SaveSettled i reply) st) \<and>
      (\<forall>es. run es (step (SaveSettled i reply) st) = step (SaveSettled i reply) st)"
    if "running st" "i < length (awaiting st)" "awaiting st ! i = m"
  proof -
    have "step (SaveSettled i reply) st =
        st\<lparr>awaiting := take i (awaiting st) @ drop (Suc i) (awaiting st), running := False\<rparr>"
      using that by (simp add: step_def settle_pending a)
    then show ?thesis by (simp add: run_ended)
  qed
  have b: "sendmessage sender receiver body now reply st = Some (Rejected e, st)"
    if "m = \<lparr>msg_sender = sender, msg_receiver = receiver, msg_text = body, createdAt = now\<rparr>"
    using a [of st] that by (simp add: sendmessage_whole)
  from a [of st] b c show ?thesis by blast
qed

theorem failed_save_is_unhandled_witness:
  "save hi Unavailable = Failed StoreUnavailable \<and>
   sendmessage (Some idA) (Some idB) ''hi'' 0 Unavailable online =
     Some (Rejected StoreUnavailable, online) \<and>
   trace (step (SaveSettled 0 Unavailable) (online\<lparr>awaiting := [hi]\<rparr>)) = [] \<and>
   \<not> running (step (SaveSettled 0 Unavailable) (online\<lparr>awaiting := [hi]\<rparr>))"
proof -
  have f: "save hi Unavailable = Failed StoreUnavailable"
    by (simp add: save_def validates_documents)
  have m: "hi = \<lparr>msg_sender = Some idA, msg_receiver = Some idB, msg_text = ''hi'', createdAt = 0\<rparr>"
    by (simp add: hi_def)
  note t = failed_save_is_unhandled [OF f, where sender = "Some idA" and receiver = "Some idB"
      and body = "''hi''" and now = 0]
  from t [where st = online] m
  have a: "sendmessage (Some idA) (Some idB) ''hi'' 0 Unavailable online =
     Some (Rejected StoreUnavailable, online)"
    by blast
  from t [where st = "online\<lparr>awaiting := [hi]\<rparr>" and i = 0]
  have b: "trace (step (SaveSettled 0 Unavailable) (online\<lparr>awaiting := [hi]\<rparr>)) = [] \<and>
      \<not> running (step (SaveSettled 0 Unavailable) (online\<lparr>awaiting := [hi]\<rparr>))"
    by (simp add: online_registry)
  from f a b show ?thesis by blast
qed

lemma gone_before_saved_run: "run gone_before_saved online =
    online\<lparr>onlineUsers := (onlineUsers online)(idA := None), trace := [Persist memo]\<rparr>"
proof -
  have s: "save memo Stored = Saved" by (simp add: save_Saved validates_documents)
  have r: "msg_receiver memo = Some idA" by (simp add: memo_def)
  have 1: "step (SendMessage (Some idA) (Some idA) ''memo'' 7) online = online\<lparr>awaiting := [memo]\<rparr>"
    by (simp add: step_sendmessage online_registry memo_def)
  have 2: "step (Disconnect (Some idA) ''hA'') (online\<lparr>awaiting := [memo]\<rparr>) =
      online\<lparr>onlineUsers := (onlineUsers online)(idA := None), awaiting := [memo]\<rparr>"
    by (simp add: step_def disconnect_def delete_prop_def to_key_def online_registry)
  have 3: "step (SaveSettled 0 Stored)
        (online\<lparr>onlineUsers := (onlineUsers online)(idA := None), awaiting := [memo]\<rparr>) =
      online\<lparr>onlineUsers := (onlineUsers online)(idA := None), trace := [Persist memo]\<rparr>"
    by (simp add: step_def settle_pending resume_saved [OF s] r forward_miss to_key_def
        online_registry ids)
  show ?thesis by (simp add: gone_before_saved_def 1 2 3)
qed

text \<open>
  C10, as the claim has it, fails, in two ways.  \<open>u1\<close> is registered and sends a memo to
  \<open>u1\<close>, the store ready to take it: \<open>u1\<close> is no ObjectId, the save is rejected, and the
  memo is neither persisted nor forwarded.  And A, registered under an ObjectId, sends a
  memo to A, but the socket of A closes before the save settles: the memo is persisted
  and not forwarded.
\<close>

theorem self_send_is_not_always_forwarded:
  "onlineUsers alice_bob (to_key (Some ''u1'')) = Some ''hA'' \<and>
   sendmessage (Some ''u1'') (Some ''u1'') ''memo'' 7 Stored alice_bob =
     Some (Rejected ValidationError, alice_bob) \<and>
   onlineUsers online (to_key (Some idA)) = Some ''hA'' \<and>
   trace (run gone_before_saved online) = [Persist memo]"
proof -
  have "sendmessage (Some ''u1'') (Some ''u1'') ''memo'' 7 Stored alice_bob =
     Some (Rejected ValidationError, alice_bob)"
    by (simp add: sendmessage_whole sendmessage_resume_def save_def validates_def
        casts_to_ObjectId_def)
  then show ?thesis
    by (simp add: to_key_def alice_bob_registry online_registry gone_before_saved_run)
qed

text \<open>
  C10 (amended): when a \<^verbatim>\<open>sendmessage\<close> event names the same identity \<open>u\<close> as sender and
  as receiver, \<open>u\<close> casts to ObjectId, the store takes the document, and \<open>u\<close> is
  registered with the handle \<open>h\<close> (a socket id, never the empty string) when the listener
  resumes after the save, then the message is persisted and after it a
  \<^verbatim>\<open>receivemessage\<close> event with the sender and the text is emitted to \<open>h\<close>, the
  sender's own connection: a self-send takes the same path as any other message.  This
  holds of the whole listener when nothing runs between its two parts, and of the
  resumption in any later state in which the document of the event is pending.
\<close>

theorem self_send_is_forwarded_to_sender:
  assumes u: "casts_to_ObjectId u"
    and m: "m = \<lparr>msg_sender = u, msg_receiver = u, msg_text = body, createdAt = now\<rparr>"
    and h: "h \<noteq> []"
  shows
  "(onlineUsers st (to_key u) = Some h \<longrightarrow>
      sendmessage u u body now Stored st =
        Some (Fulfilled,
              st\<lparr>trace := trace st @
                   [Persist m,
                    Emit (Str h) \<lparr>ev_name = ''receivemessage'',
                                  ev_fields = [(''sender'', FIdent u), (''text'', FData body)]\<rparr>]\<rparr>)) \<and>
   (running st \<longrightarrow>
      step (SendMessage u u body now) st = st\<lparr>awaiting := awaiting st @ [m]\<rparr>) \<and>
   (i < length (awaiting st2) \<and> awaiting st2 ! i = m \<and> onlineUsers st2 (to_key u) = Some h \<longrightarrow>
      save_settled i Stored st2 =
        Some (Fulfilled,
              st2\<lparr>awaiting := take i (awaiting st2) @ drop (Suc i) (awaiting st2),
                  trace := trace st2 @
                   [Persist m,
                    Emit (Str h) \<lparr>ev_name = ''receivemessage'',
                                  ev_fields = [(''sender'', FIdent u), (''text'', FData body)]\<rparr>]\<rparr>))"
proof -
  have s: "save m Stored = Saved" using u by (simp add: save_Saved validates_def m)
  have r: "sendmessage_resume m Stored s =
      (Fulfilled, s\<lparr>trace := trace s @ [Persist m,
           Emit (Str h) \<lparr>ev_name = ''receivemessage'',
                         ev_fields = [(''sender'', FIdent u), (''text'', FData body)]\<rparr>]\<rparr>)"
    if "onlineUsers s (to_key u) = Some h" for s :: "'a relay"
  proof -
    have "onlineUsers (s\<lparr>trace := trace s @ [Persist m]\<rparr>) (to_key (msg_receiver m)) = Some h"
      using that by (simp add: m)
    from forward_hit [OF this h]
    have "forward (msg_receiver m) (receivemessage m) (s\<lparr>trace := trace s @ [Persist m]\<rparr>) =
        s\<lparr>trace := trace s @ [Persist m, Emit (Str h) (receivemessage m)]\<rparr>"
      by simp
    moreover have "receivemessage m =
        \<lparr>ev_name = ''receivemessage'',
         ev_fields = [(''sender'', FIdent u), (''text'', FData body)]\<rparr>"
      by (simp add: receivemessage_def m)
    ultimately show ?thesis by (simp only: resume_saved [OF s])
  qed
  have a: "onlineUsers st (to_key u) = Some h \<longrightarrow>
      sendmessage u u body now Stored st =
        Some (Fulfilled,
              st\<lparr>trace := trace st @
                   [Persist m,
                    Emit (Str h) \<lparr>ev_name = ''receivemessage'',
                                  ev_fields = [(''sender'', FIdent u), (''text'', FData body)]\<rparr>]\<rparr>)"
    using r [of st] by (simp add: sendmessage_whole flip: m)
  have b: "running st \<longrightarrow>
      step (SendMessage u u body now) st = st\<lparr>awaiting := awaiting st @ [m]\<rparr>"
    by (simp add: step_sendmessage m)
  have c: "i < length (awaiting st2) \<and> awaiting st2 ! i = m \<and> onlineUsers st2 (to_key u) = Some h \<longrightarrow>
      save_settled i Stored st2 =
        Some (Fulfilled,
              st2\<lparr>awaiting := take i (awaiting st2) @ drop (Suc i) (awaiting st2),
                  trace := trace st2 @
                   [Persist m,
                    Emit (Str h) \<lparr>ev_name = ''receivemessage'',
                                  ev_fields = [(''sender'', FIdent u), (''text'', FData body)]\<rparr>]\<rparr>)"
    using r [of "st2\<lparr>awaiting := take i (awaiting st2) @ drop (Suc i) (awaiting st2)\<rparr>"]
    by (simp add: settle_pending)
  from a b c show ?thesis by blast
qed

theorem self_send_is_forwarded_to_sender_witness:
  "casts_to_ObjectId (Some idA) \<and>
   memo = \<lparr>msg_sender = Some idA, msg_receiver = Some idA, msg_text = ''memo'', createdAt = 7\<rparr> \<and>
   ''hA'' \<noteq> [] \<and>
   onlineUsers online (to_key (Some idA)) = Some ''hA'' \<and>
   sendmessage (Some idA) (Some idA) ''memo'' 7 Stored online =
     Some (Fulfilled,
           online\<lparr>trace :=
                [Persist memo,
                 Emit (Str ''hA'') \<lparr>ev_name = ''receivemessage'',
                      ev_fields = [(''sender'', FIdent (Some idA)), (''text'', FData ''memo'')]\<rparr>]\<rparr>)"
proof -
  have u: "casts_to_ObjectId (Some idA)" by (simp add: ids)
  have m: "memo = \<lparr>msg_sender = Some idA, msg_receiver = Some idA, msg_text = ''memo'', createdAt = 7\<rparr>"
    by (simp add: memo_def)
  have h: "''hA'' \<noteq> []" by simp
  have reg: "onlineUsers online (to_key (Some idA)) = Some ''hA''"
    by (simp add: to_key_def online_registry)
  from self_send_is_forwarded_to_sender [OF u m h, where st = online] reg
  have "sendmessage (Some idA) (Some idA) ''memo'' 7 Stored online =
     Some (Fulfilled,
           online\<lparr>trace := trace online @
                [Persist memo,
                 Emit (Str ''hA'') \<lparr>ev_name = ''receivemessage'',
                      ev_fields = [(''sender'', FIdent (Some idA)), (''text'', FData ''memo'')]\<rparr>]\<rparr>)"
    by blast
  with u m h reg show ?thesis by (simp add: online_registry)
qed

subsection \<open>The signaling coordinator\<close>

text \<open>
  C3: for each of the five inbound signaling events with target identity \<^verbatim>\<open>to\<close>: if the
  registry holds a handle for \<^verbatim>\<open>to\<close> (a socket id, never the empty string), the listener
  emits exactly one event, to that handle, and it is the event the specification's table
  gives, name and fields; if the registry holds no entry for \<^verbatim>\<open>to\<close>, no event goes out
  to any connection, and when \<^verbatim>\<open>to\<close> is moreover not the name of a member of
  \<^verbatim>\<open>Object.prototype\<close> the listener does nothing at all.
\<close>

theorem signaling_forwards_the_mapped_event:
  "(onlineUsers st (to_key (target s)) = Some h \<and> h \<noteq> [] \<longrightarrow>
      on_signal s st = st\<lparr>trace := trace st @ [Emit (Str h) (spec_outbound s)]\<rparr> \<and>
      outbound (trace (on_signal s st)) = outbound (trace st) @ [(h, spec_outbound s)]) \<and>
   (onlineUsers st (to_key (target s)) = None \<longrightarrow>
      outbound (trace (on_signal s st)) = outbound (trace st)) \<and>
   (onlineUsers st (to_key (target s)) = None \<and> to_key (target s) \<notin> set object_prototype_names \<longrightarrow>
      on_signal s st = st)"
  by (simp add: on_signal_forward forward_hit forward_miss_outbound forward_miss outbound_append)

text \<open>
  The scenario of section 8: A sends \<^verbatim>\<open>call-user\<close> to \<open>u2\<close> and B receives
  \<^verbatim>\<open>incoming-call\<close>; A disconnects, B sends \<^verbatim>\<open>end-call\<close> to \<open>u1\<close> and nothing is delivered.
\<close>

theorem signaling_forwards_the_mapped_event_witness:
  "onlineUsers alice_bob (to_key (target (CallUser (Some ''u1'') (Some ''u2'') ''O''))) = Some ''hB'' \<and>
   ''hB'' \<noteq> [] \<and>
   outbound (trace (on_signal (CallUser (Some ''u1'') (Some ''u2'') ''O'') alice_bob)) =
     [(''hB'', \<lparr>ev_name = ''incoming-call'',
               ev_fields = [(''from'', FIdent (Some ''u1'')), (''offer'', FData ''O'')]\<rparr>)] \<and>
   onlineUsers (disconnect (Some ''u1'') ''hA'' alice_bob)
     (to_key (target (EndCall (Some ''u2'') (Some ''u1'') :: string signal))) = None \<and>
   on_signal (EndCall (Some ''u2'') (Some ''u1'')) (disconnect (Some ''u1'') ''hA'' alice_bob) =
     disconnect (Some ''u1'') ''hA'' alice_bob"
proof -
  have reg: "onlineUsers alice_bob (to_key (target (CallUser (Some ''u1'') (Some ''u2'') ''O''))) =
      Some ''hB'' \<and> ''hB'' \<noteq> []"
    by (simp add: to_key_def alice_bob_registry)
  have unreg: "onlineUsers (disconnect (Some ''u1'') ''hA'' alice_bob)
      (to_key (target (EndCall (Some ''u2'') (Some ''u1'') :: string signal))) = None \<and>
      to_key (target (EndCall (Some ''u2'') (Some ''u1'') :: string signal))
        \<notin> set object_prototype_names"
    by (simp add: to_key_def disconnect_def delete_prop_def object_prototype_names_def)
  from signaling_forwards_the_mapped_event
         [where st = alice_bob and s = "CallUser (Some ''u1'') (Some ''u2'') ''O''"
            and h = "''hB''"] reg
  have a: "outbound (trace (on_signal (CallUser (Some ''u1'') (Some ''u2'') ''O'') alice_bob)) =
      [(''hB'', \<lparr>ev_name = ''incoming-call'',
               ev_fields = [(''from'', FIdent (Some ''u1'')), (''offer'', FData ''O'')]\<rparr>)]"
    by (simp add: alice_bob_registry)
  from signaling_forwards_the_mapped_event
         [where st = "disconnect (Some ''u1'') ''hA'' alice_bob"
            and s = "EndCall (Some ''u2'') (Some ''u1'')"] unreg
  have b: "on_signal (EndCall (Some ''u2'') (Some ''u1'')) (disconnect (Some ''u1'') ''hA'' alice_bob) =
      disconnect (Some ''u1'') ''hA'' alice_bob"
    by blast
  from reg unreg a b show ?thesis by blast
qed

text \<open>
  C7: when the target identity of a signaling event, or the receiver of a
  \<^verbatim>\<open>sendmessage\<close> event, has no registry entry at the moment of the lookup, no event goes
  out to any connection; the signaling listeners cannot fail, and the \<^verbatim>\<open>sendmessage\<close>
  listener, which reaches its lookup only after a save that succeeded, ends normally, so
  no error reaches the sender.
\<close>

theorem lookup_miss_is_silent:
  "(onlineUsers st (to_key (target s)) = None \<longrightarrow>
      outbound (trace (on_signal s st)) = outbound (trace st)) \<and>
   (onlineUsers st (to_key (msg_receiver m)) = None \<longrightarrow>
      outbound (trace (snd (sendmessage_resume m reply st))) = outbound (trace st) \<and>
      (save m reply = Saved \<longrightarrow> fst (sendmessage_resume m reply st) = Fulfilled))"
  by (cases "save m reply")
     (simp_all add: on_signal_forward forward_miss_outbound sendmessage_resume_def outbound_append)

theorem lookup_miss_is_silent_witness:
  "onlineUsers (init :: string relay) (to_key (target (RejectCall (Some ''u2'') (Some ''u1'') :: string signal))) = None \<and>
   outbound (trace (on_signal (RejectCall (Some ''u2'') (Some ''u1'')) (init :: string relay))) = [] \<and>
   onlineUsers (init :: string relay) (to_key (msg_receiver hi)) = None \<and>
   save hi Stored = Saved \<and>
   fst (sendmessage_resume hi Stored init) = Fulfilled \<and>
   outbound (trace (snd (sendmessage_resume hi Stored init))) = [] \<and>
   persisted (trace (snd (sendmessage_resume hi Stored init))) = [hi]"
proof -
  have a: "onlineUsers (init :: string relay)
      (to_key (target (RejectCall (Some ''u2'') (Some ''u1'') :: string signal))) = None"
    by (simp add: init_def)
  have b: "onlineUsers (init :: string relay) (to_key (msg_receiver hi)) = None"
    by (simp add: init_def)
  have t: "outbound (trace (init :: string relay)) = []" "trace (init :: string relay) = []"
    by (simp_all add: init_def)
  have s: "save hi Stored = Saved" by (simp add: save_Saved validates_documents)
  have p: "persisted (trace (snd (sendmessage_resume hi Stored init))) = [hi]"
    by (simp add: trace_resume s t persisted_append)
  from lookup_miss_is_silent
         [where st = "init :: string relay" and s = "RejectCall (Some ''u2'') (Some ''u1'')"
            and m = hi and reply = Stored] a b t s p
  show ?thesis by simp
qed

subsection \<open>Who changes the registry\<close>

text \<open>
  C9: only the connection lifecycle changes the registry.  The five signaling listeners
  and both parts of the \<^verbatim>\<open>sendmessage\<close> listener leave the map as it is, and so does
  every event of a run other than a connection or a disconnect; a connection or a
  disconnect under the identity \<open>X\<close> leaves the entry of every other key \<open>Y\<close> as it is.
\<close>

theorem only_lifecycle_changes_registry:
  "onlineUsers (on_signal s st) = onlineUsers st \<and>
   onlineUsers (sendmessage_begin sender receiver body now st) = onlineUsers st \<and>
   onlineUsers (snd (sendmessage_resume m reply st)) = onlineUsers st \<and>
   (\<not> lifecycle e \<longrightarrow> onlineUsers (step e st) = onlineUsers st) \<and>
   (Y \<noteq> to_key X \<longrightarrow>
      onlineUsers (connection X h st) Y = onlineUsers st Y \<and>
      onlineUsers (disconnect X h st) Y = onlineUsers st Y)"
  by (simp add: on_signal_forward onlineUsers_forward sendmessage_begin_def
      onlineUsers_resume onlineUsers_step connection_def disconnect_def
      set_prop_def delete_prop_def)

theorem only_lifecycle_changes_registry_witness:
  "onlineUsers (on_signal (CallUser (Some ''u1'') (Some ''u2'') ''O'') alice_bob) ''u2'' = Some ''hB'' \<and>
   \<not> lifecycle (SaveSettled 0 Stored :: string event) \<and>
   onlineUsers (step (SaveSettled 0 Stored) (sendmessage_begin (Some idA) (Some idB) ''hi'' 0 alice_bob)) ''u2''
     = Some ''hB'' \<and>
   ''u2'' \<noteq> to_key (Some ''u1'') \<and>
   onlineUsers (connection (Some ''u1'') ''hA2'' alice_bob) ''u2'' = Some ''hB'' \<and>
   onlineUsers (disconnect (Some ''u1'') ''hA'' alice_bob) ''u2'' = Some ''hB''"
proof -
  have nl: "\<not> lifecycle (SaveSettled 0 Stored :: string event)" by simp
  have ne: "''u2'' \<noteq> to_key (Some ''u1'')" by (simp add: to_key_def)
  have b: "onlineUsers (sendmessage_begin (Some idA) (Some idB) ''hi'' 0 alice_bob) ''u2'' = Some ''hB''"
    by (simp add: sendmessage_begin_def alice_bob_registry)
  from only_lifecycle_changes_registry
         [where s = "CallUser (Some ''u1'') (Some ''u2'') ''O''" and st = alice_bob
            and X = "Some ''u1''" and Y = "''u2''" and h = "''hA2''"] ne
  have c: "onlineUsers (on_signal (CallUser (Some ''u1'') (Some ''u2'') ''O'') alice_bob) ''u2'' = Some ''hB''"
    "onlineUsers (connection (Some ''u1'') ''hA2'' alice_bob) ''u2'' = Some ''hB''"
    by (simp_all add: alice_bob_registry)
  from only_lifecycle_changes_registry
         [where st = alice_bob and X = "Some ''u1''" and Y = "''u2''" and h = "''hA''"] ne
  have d: "onlineUsers (disconnect (Some ''u1'') ''hA'' alice_bob) ''u2'' = Some ''hB''"
    by (simp add: alice_bob_registry)
  from only_lifecycle_changes_registry
         [where st = "sendmessage_begin (Some idA) (Some idB) ''hi'' 0 alice_bob"
            and e = "SaveSettled 0 Stored"] nl b
  have e: "onlineUsers (step (SaveSettled 0 Stored)
      (sendmessage_begin (Some idA) (Some idB) ''hi'' 0 alice_bob)) ''u2'' = Some ''hB''"
    by simp
  from nl ne c d e show ?thesis by blast
qed

subsection \<open>Order of a sender's messages\<close>

lemma signal_not_receivemessage: "ev_name (spec_outbound s) \<noteq> ''receivemessage''"
  by (cases s) simp_all

lemma persisted_signal: "persisted (trace (on_signal s st)) = persisted (trace st)"
  by (simp add: on_signal_forward persisted_forward)

lemma forwarded_signal: "forwarded (trace (on_signal s st)) = forwarded (trace st)"
  by (cases "recipient (get_prop (onlineUsers st) (to_key (target s)))")
     (simp_all add: on_signal_forward trace_forward forwarded_def outbound_append
        signal_not_receivemessage)

lemma from_sender_receivemessage: "from_sender s (receivemessage m) = sent_by s m"
  by (simp add: from_sender_def receivemessage_def sent_by_def)

lemma dispatch_settle_none:
  "\<not> i < length (awaiting st) \<Longrightarrow> dispatch (SaveSettled i reply) st = st"
  by (simp add: save_settled_def)

lemma dispatch_settle_failed:
  "i < length (awaiting st) \<Longrightarrow> save (awaiting st ! i) reply = Failed e \<Longrightarrow>
     dispatch (SaveSettled i reply) st =
       st\<lparr>awaiting := take i (awaiting st) @ drop (Suc i) (awaiting st), running := False\<rparr>"
  by (simp add: settle_pending resume_failed)

lemma dispatch_settle_saved:
  "i < length (awaiting st) \<Longrightarrow> save (awaiting st ! i) reply = Saved \<Longrightarrow>
     dispatch (SaveSettled i reply) st =
       forward (msg_receiver (awaiting st ! i)) (receivemessage (awaiting st ! i))
         (st\<lparr>awaiting := take i (awaiting st) @ drop (Suc i) (awaiting st),
             trace := trace st @ [Persist (awaiting st ! i)]\<rparr>)"
  by (simp add: settle_pending resume_saved)

lemma fifo_dispatch:
  assumes "fifo [e]"
  shows "\<exists>ys. persisted (trace (dispatch e st)) = persisted (trace st) @ ys \<and>
              subseq (ys @ awaiting (dispatch e st)) (awaiting st @ invoked [e])"
proof (cases e)
  case (Connection u h)
  then show ?thesis by (simp add: connection_def)
next
  case (Disconnect u h)
  then show ?thesis by (simp add: disconnect_def)
next
  case (SendMessage s r t n)
  then show ?thesis by (simp add: sendmessage_begin_def)
next
  case (Signal s)
  then show ?thesis by (simp add: on_signal_forward persisted_forward awaiting_forward)
next
  case (SaveSettled i reply)
  with assms have i: "i = 0" by simp
  show ?thesis
  proof (cases "awaiting st")
    case Nil
    then show ?thesis using SaveSettled by (simp add: dispatch_settle_none del: dispatch.simps)
  next
    case (Cons m ms)
    show ?thesis
    proof (cases "save m reply")
      case Saved
      then show ?thesis using SaveSettled i Cons
        by (simp add: dispatch_settle_saved persisted_forward awaiting_forward persisted_append
            del: dispatch.simps)
    next
      case (Failed err)
      then show ?thesis using SaveSettled i Cons
        by (simp add: dispatch_settle_failed list_emb_Cons del: dispatch.simps)
    qed
  qed
qed

lemma fifo_step:
  assumes "fifo [e]"
  shows "\<exists>ys. persisted (trace (step e st)) = persisted (trace st) @ ys \<and>
              subseq (ys @ awaiting (step e st)) (awaiting st @ invoked [e])"
proof (cases "running st")
  case True
  then show ?thesis using fifo_dispatch [OF assms, of st] by (simp add: step_def)
next
  case False
  then show ?thesis by (simp add: step_def list_emb_prefix)
qed

lemma fifo_persist_order:
  "fifo evs \<Longrightarrow>
     \<exists>ys. persisted (trace (run evs st)) = persisted (trace st) @ ys \<and>
          subseq (ys @ awaiting (run evs st)) (awaiting st @ invoked evs)"
proof (induction evs arbitrary: st)
  case Nil
  then show ?case by simp
next
  case (Cons e evs)
  have f1: "fifo [e]" and f2: "fifo evs"
    using Cons.prems by (cases e; simp)+
  have inv: "invoked (e # evs) = invoked [e] @ invoked evs"
    by (cases e) simp_all
  from fifo_step [OF f1, of st] obtain ys1 where
    p1: "persisted (trace (step e st)) = persisted (trace st) @ ys1" and
    s1: "subseq (ys1 @ awaiting (step e st)) (awaiting st @ invoked [e])"
    by blast
  from Cons.IH [OF f2, of "step e st"] obtain ys2 where
    p2: "persisted (trace (run evs (step e st))) = persisted (trace (step e st)) @ ys2" and
    s2: "subseq (ys2 @ awaiting (run evs (step e st))) (awaiting (step e st) @ invoked evs)"
    by blast
  have "subseq (ys1 @ (ys2 @ awaiting (run evs (step e st))))
               (ys1 @ (awaiting (step e st) @ invoked evs))"
    using s2 by (simp add: subseq_append')
  also have "subseq (ys1 @ (awaiting (step e st) @ invoked evs))
                    ((awaiting st @ invoked [e]) @ invoked evs)"
    using s1 by (simp add: list_emb_append_mono flip: append_assoc)
  finally have "subseq ((ys1 @ ys2) @ awaiting (run (e # evs) st))
                       (awaiting st @ invoked (e # evs))"
    by (simp add: inv)
  moreover have "persisted (trace (run (e # evs) st)) = persisted (trace st) @ (ys1 @ ys2)"
    using p1 p2 by simp
  ultimately show ?case by blast
qed

lemma dispatch_forward_order:
  "\<exists>zs ys. forwarded (trace (dispatch e st)) = forwarded (trace st) @ zs \<and>
           persisted (trace (dispatch e st)) = persisted (trace st) @ ys \<and>
           subseq zs (map receivemessage ys)"
proof (cases e)
  case (Connection u h)
  then show ?thesis by (simp add: connection_def)
next
  case (Disconnect u h)
  then show ?thesis by (simp add: disconnect_def)
next
  case (SendMessage s r t n)
  then show ?thesis by (simp add: sendmessage_begin_def)
next
  case (Signal s)
  then show ?thesis by (simp add: forwarded_signal persisted_signal)
next
  case (SaveSettled i reply)
  show ?thesis
  proof (cases "i < length (awaiting st)")
    case False
    then show ?thesis using SaveSettled by (simp add: dispatch_settle_none del: dispatch.simps)
  next
    case True
    define m where "m = awaiting st ! i"
    define st1 where "st1 = st\<lparr>awaiting := take i (awaiting st) @ drop (Suc i) (awaiting st)\<rparr>"
    show ?thesis
    proof (cases "save m reply")
      case (Failed err)
      then show ?thesis using SaveSettled True
        by (simp add: dispatch_settle_failed m_def del: dispatch.simps)
    next
      case Saved
      have tr: "trace (dispatch e st) =
          trace st @ Persist m # (if truthy (get_prop (onlineUsers st) (to_key (msg_receiver m)))
             then [Emit (get_prop (onlineUsers st) (to_key (msg_receiver m))) (receivemessage m)]
             else [])"
        using SaveSettled True Saved
        by (simp add: dispatch_settle_saved trace_forward m_def del: dispatch.simps)
      have "forwarded (trace (dispatch e st)) = forwarded (trace st) @ [] \<or>
            forwarded (trace (dispatch e st)) = forwarded (trace st) @ [receivemessage m]"
        by (cases "get_prop (onlineUsers st) (to_key (msg_receiver m))")
           (simp_all add: tr forwarded_def outbound_append receivemessage_def)
      moreover have "persisted (trace (dispatch e st)) = persisted (trace st) @ [m]"
        by (simp add: tr persisted_append)
      ultimately show ?thesis by auto
    qed
  qed
qed

lemma step_forward_order:
  "\<exists>zs ys. forwarded (trace (step e st)) = forwarded (trace st) @ zs \<and>
           persisted (trace (step e st)) = persisted (trace st) @ ys \<and>
           subseq zs (map receivemessage ys)"
  using dispatch_forward_order [of e st] by (simp add: step_def)

lemma run_forward_order:
  "\<exists>zs ys. forwarded (trace (run evs st)) = forwarded (trace st) @ zs \<and>
           persisted (trace (run evs st)) = persisted (trace st) @ ys \<and>
           subseq zs (map receivemessage ys)"
proof (induction evs arbitrary: st)
  case Nil
  then show ?case by simp
next
  case (Cons e evs)
  from step_forward_order [of e st] obtain zs1 ys1 where
    a: "forwarded (trace (step e st)) = forwarded (trace st) @ zs1"
       "persisted (trace (step e st)) = persisted (trace st) @ ys1"
       "subseq zs1 (map receivemessage ys1)"
    by blast
  from Cons.IH [of "step e st"] obtain zs2 ys2 where
    b: "forwarded (trace (run evs (step e st))) = forwarded (trace (step e st)) @ zs2"
       "persisted (trace (run evs (step e st))) = persisted (trace (step e st)) @ ys2"
       "subseq zs2 (map receivemessage ys2)"
    by blast
  have "subseq (zs1 @ zs2) (map receivemessage (ys1 @ ys2))"
    using a(3) b(3) by (simp add: list_emb_append_mono)
  moreover have "forwarded (trace (run (e # evs) st)) = forwarded (trace st) @ (zs1 @ zs2)"
    using a(1) b(1) by simp
  moreover have "persisted (trace (run (e # evs) st)) = persisted (trace st) @ (ys1 @ ys2)"
    using a(2) b(2) by simp
  ultimately show ?case by blast
qed

lemma filter_receivemessage:
  "filter (from_sender s) (map receivemessage ms) = map receivemessage (filter (sent_by s) ms)"
  by (induction ms) (simp_all add: from_sender_receivemessage)

lemma subseq_appendL: "subseq (xs @ ys) zs \<Longrightarrow> subseq xs zs"
proof -
  assume a: "subseq (xs @ ys) zs"
  have "subseq xs (xs @ ys)" by (simp add: list_emb_prefix)
  then show ?thesis using a by (rule subseq_order.trans)
qed

lemma in_order_run:
  "run in_order init =
     init\<lparr>onlineUsers := [idB \<mapsto> ''hB''],
          trace := [Persist one, Emit (Str ''hB'') (receivemessage one),
                    Persist two, Emit (Str ''hB'') (receivemessage two)]\<rparr>"
proof -
  have s: "save one Stored = Saved" "save two Stored = Saved"
    by (simp_all add: save_Saved validates_documents)
  have r: "msg_receiver one = Some idB" "msg_receiver two = Some idB"
    by (simp_all add: one_def two_def)
  have i: "running (init :: string relay)" "awaiting (init :: string relay) = []"
    "trace (init :: string relay) = []" "onlineUsers (init :: string relay) = Map.empty"
    by (simp_all add: init_def)
  have 1: "step (Connection (Some idB) ''hB'') init = (init\<lparr>onlineUsers := [idB \<mapsto> ''hB'']\<rparr> :: string relay)"
    by (simp add: step_def connection_def set_prop_def to_key_def ids i)
  have 2: "step (SendMessage (Some idA) (Some idB) ''one'' 0) (init\<lparr>onlineUsers := [idB \<mapsto> ''hB'']\<rparr>) =
      init\<lparr>onlineUsers := [idB \<mapsto> ''hB''], awaiting := [one]\<rparr>"
    by (simp add: step_sendmessage i one_def)
  have 3: "step (SendMessage (Some idA) (Some idB) ''two'' 1)
        (init\<lparr>onlineUsers := [idB \<mapsto> ''hB''], awaiting := [one]\<rparr>) =
      init\<lparr>onlineUsers := [idB \<mapsto> ''hB''], awaiting := [one, two]\<rparr>"
    by (simp add: step_sendmessage i two_def)
  have 4: "step (SaveSettled 0 Stored) (init\<lparr>onlineUsers := [idB \<mapsto> ''hB''], awaiting := [one, two]\<rparr>) =
      init\<lparr>onlineUsers := [idB \<mapsto> ''hB''], awaiting := [two],
           trace := [Persist one, Emit (Str ''hB'') (receivemessage one)]\<rparr>"
    by (simp add: step_def settle_pending resume_saved [OF s(1)] r forward_hit to_key_def i)
  have 5: "step (SaveSettled 0 Stored)
        (init\<lparr>onlineUsers := [idB \<mapsto> ''hB''], awaiting := [two],
           trace := [Persist one, Emit (Str ''hB'') (receivemessage one)]\<rparr>) =
      init\<lparr>onlineUsers := [idB \<mapsto> ''hB''],
           trace := [Persist one, Emit (Str ''hB'') (receivemessage one),
                     Persist two, Emit (Str ''hB'') (receivemessage two)]\<rparr>"
    by (simp add: step_def settle_pending resume_saved [OF s(2)] r forward_hit to_key_def i)
  show ?thesis by (simp only: in_order_def run.simps 1 2 3 4 5)
qed

lemma reordered_run:
  "run reordered init =
     init\<lparr>onlineUsers := [idB \<mapsto> ''hB''],
          trace := [Persist two, Emit (Str ''hB'') (receivemessage two),
                    Persist one, Emit (Str ''hB'') (receivemessage one)]\<rparr>"
proof -
  have s: "save one Stored = Saved" "save two Stored = Saved"
    by (simp_all add: save_Saved validates_documents)
  have r: "msg_receiver one = Some idB" "msg_receiver two = Some idB"
    by (simp_all add: one_def two_def)
  have i: "running (init :: string relay)" "awaiting (init :: string relay) = []"
    "trace (init :: string relay) = []" "onlineUsers (init :: string relay) = Map.empty"
    by (simp_all add: init_def)
  have 1: "step (Connection (Some idB) ''hB'') init = (init\<lparr>onlineUsers := [idB \<mapsto> ''hB'']\<rparr> :: string relay)"
    by (simp add: step_def connection_def set_prop_def to_key_def ids i)
  have 2: "step (SendMessage (Some idA) (Some idB) ''one'' 0) (init\<lparr>onlineUsers := [idB \<mapsto> ''hB'']\<rparr>) =
      init\<lparr>onlineUsers := [idB \<mapsto> ''hB''], awaiting := [one]\<rparr>"
    by (simp add: step_sendmessage i one_def)
  have 3: "step (SendMessage (Some idA) (Some idB) ''two'' 1)
        (init\<lparr>onlineUsers := [idB \<mapsto> ''hB''], awaiting := [one]\<rparr>) =
      init\<lparr>onlineUsers := [idB \<mapsto> ''hB''], awaiting := [one, two]\<rparr>"
    by (simp add: step_sendmessage i two_def)
  have 4: "step (SaveSettled 1 Stored) (init\<lparr>onlineUsers := [idB \<mapsto> ''hB''], awaiting := [one, two]\<rparr>) =
      init\<lparr>onlineUsers := [idB \<mapsto> ''hB''], awaiting := [one],
           trace := [Persist two, Emit (Str ''hB'') (receivemessage two)]\<rparr>"
    by (simp add: step_def settle_pending resume_saved [OF s(2)] r forward_hit to_key_def i)
  have 5: "step (SaveSettled 0 Stored)
        (init\<lparr>onlineUsers := [idB \<mapsto> ''hB''], awaiting := [one],
           trace := [Persist two, Emit (Str ''hB'') (receivemessage two)]\<rparr>) =
      init\<lparr>onlineUsers := [idB \<mapsto> ''hB''],
           trace := [Persist two, Emit (Str ''hB'') (receivemessage two),
                     Persist one, Emit (Str ''hB'') (receivemessage one)]\<rparr>"
    by (simp add: step_def settle_pending resume_saved [OF s(1)] r forward_hit to_key_def i)
  show ?thesis by (simp only: reordered_def run.simps 1 2 3 4 5)
qed

lemma one_two:
  "sent_by (Some idA) one" "sent_by (Some idA) two" "one \<noteq> two"
  "receivemessage one \<noteq> receivemessage two" "receivemessage two \<noteq> receivemessage one"
  "ev_name (receivemessage m) = ''receivemessage''"
  by (simp_all add: sent_by_def one_def two_def receivemessage_def)

lemma invoked_runs: "invoked in_order = [one, two]" "invoked reordered = [one, two]"
  by (simp_all add: in_order_def reordered_def one_def two_def)

text \<open>
  C8, as the claim has it, fails: A sends \<open>one\<close> and then \<open>two\<close> to B, both listeners
  wait for their saves, and the save of \<open>two\<close> settles first; \<open>two\<close> is then forwarded
  before \<open>one\<close>, so the messages forwarded for A are not in the order of the
  \<^verbatim>\<open>sendmessage\<close> events.
\<close>

theorem overlapping_saves_reorder_forwarding:
  "invoked reordered = [one, two] \<and>
   filter (from_sender (Some idA)) (forwarded (trace (run reordered init))) =
     [receivemessage two, receivemessage one] \<and>
   \<not> subseq (filter (from_sender (Some idA)) (forwarded (trace (run reordered init))))
             (map receivemessage (filter (sent_by (Some idA)) (invoked reordered)))"
  by (simp add: reordered_run invoked_runs forwarded_def one_two from_sender_receivemessage)

text \<open>
  C8 (amended): for a single sender, messages are forwarded in the order in which they
  are persisted, which is the order in which their saves settle.  When the store settles
  the pending saves oldest first, that is the order of the sender's \<^verbatim>\<open>sendmessage\<close>
  events: the messages persisted for the sender, and the messages forwarded for the
  sender, are then subsequences of the messages the sender's events carry, in the same
  order.
\<close>

theorem sender_order_follows_save_order:
  "subseq (filter (from_sender s) (forwarded (trace (run evs init))))
          (map receivemessage (filter (sent_by s) (persisted (trace (run evs init))))) \<and>
   (fifo evs \<longrightarrow>
      subseq (filter (sent_by s) (persisted (trace (run evs init)))) (filter (sent_by s) (invoked evs)) \<and>
      subseq (filter (from_sender s) (forwarded (trace (run evs init))))
             (map receivemessage (filter (sent_by s) (invoked evs))))"
proof -
  from run_forward_order [of evs init] obtain zs ys where
    z: "forwarded (trace (run evs init)) = zs" and
    y: "persisted (trace (run evs init)) = ys" and
    zy: "subseq zs (map receivemessage ys)"
    by (auto simp add: init_def forwarded_def)
  have "subseq (filter (from_sender s) zs) (filter (from_sender s) (map receivemessage ys))"
    using zy by (rule subseq_filter)
  then have fp: "subseq (filter (from_sender s) zs) (map receivemessage (filter (sent_by s) ys))"
    by (simp only: filter_receivemessage)
  have "subseq (filter (sent_by s) ys) (filter (sent_by s) (invoked evs)) \<and>
        subseq (filter (from_sender s) zs) (map receivemessage (filter (sent_by s) (invoked evs)))"
    if f: "fifo evs"
  proof -
    from fifo_persist_order [OF f, of init] y
    have "subseq (ys @ awaiting (run evs init)) (invoked evs)"
      by (simp add: init_def)
    then have "subseq ys (invoked evs)" by (rule subseq_appendL)
    then have pi: "subseq (filter (sent_by s) ys) (filter (sent_by s) (invoked evs))"
      by (rule subseq_filter)
    then have "subseq (map receivemessage (filter (sent_by s) ys))
                      (map receivemessage (filter (sent_by s) (invoked evs)))"
      by (rule subseq_map)
    with fp have "subseq (filter (from_sender s) zs)
                         (map receivemessage (filter (sent_by s) (invoked evs)))"
      by (rule subseq_order.trans)
    with pi show ?thesis by simp
  qed
  with fp show ?thesis by (simp add: z y)
qed

text \<open>
  A sends \<open>one\<close> and then \<open>two\<close> to B and the saves settle oldest first: both are
  persisted and forwarded, \<open>one\<close> before \<open>two\<close>.
\<close>

theorem sender_order_follows_save_order_witness:
  "fifo in_order \<and>
   filter (sent_by (Some idA)) (invoked in_order) = [one, two] \<and>
   filter (sent_by (Some idA)) (persisted (trace (run in_order init))) = [one, two] \<and>
   filter (from_sender (Some idA)) (forwarded (trace (run in_order init))) =
     [receivemessage one, receivemessage two] \<and>
   subseq [one, two] (filter (sent_by (Some idA)) (invoked in_order)) \<and>
   subseq [receivemessage one, receivemessage two]
     (map receivemessage (filter (sent_by (Some idA)) (invoked in_order)))"
proof -
  have f: "fifo in_order" by (simp add: in_order_def)
  have i: "filter (sent_by (Some idA)) (invoked in_order) = [one, two]"
    by (simp add: invoked_runs one_two)
  have p: "filter (sent_by (Some idA)) (persisted (trace (run in_order init))) = [one, two]"
    by (simp add: in_order_run one_two)
  have w: "filter (from_sender (Some idA)) (forwarded (trace (run in_order init))) =
     [receivemessage one, receivemessage two]"
    by (simp add: in_order_run forwarded_def one_two from_sender_receivemessage)
  from sender_order_follows_save_order [where s = "Some idA" and evs = in_order] f
  have "subseq (filter (sent_by (Some idA)) (persisted (trace (run in_order init))))
          (filter (sent_by (Some idA)) (invoked in_order)) \<and>
        subseq (filter (from_sender (Some idA)) (forwarded (trace (run in_order init))))
          (map receivemessage (filter (sent_by (Some idA)) (invoked in_order)))"
    by blast
  then have "subseq [one, two] (filter (sent_by (Some idA)) (invoked in_order)) \<and>
      subseq [receivemessage one, receivemessage two]
        (map receivemessage (filter (sent_by (Some idA)) (invoked in_order)))"
    by (simp only: p w)
  with f i p w show ?thesis by blast
qed

end
